theory Spec2Isabelle
  imports Main "HOL-Library.Sublist"
begin

section \<open>Strings and numbers of the script\<close>

text \<open>
  JavaScript strings are modelled as \<^typ>\<open>string\<close> over the ASCII range. The
  pictographs that open the script's console messages are not part of the model:
  every console call is a constructor of \<open>message\<close> that carries the interpolated
  values.
\<close>

definition toLowerCase :: "string \<Rightarrow> string" where
  "toLowerCase s =
     map (\<lambda>c. if 65 \<le> (of_char c :: nat) \<and> (of_char c :: nat) \<le> 90
              then char_of ((of_char c :: nat) + 32) else c) s"

definition toUpperCase :: "string \<Rightarrow> string" where
  "toUpperCase s =
     map (\<lambda>c. if 97 \<le> (of_char c :: nat) \<and> (of_char c :: nat) \<le> 122
              then char_of ((of_char c :: nat) - 32) else c) s"

definition endsWith :: "string \<Rightarrow> string \<Rightarrow> bool" where
  "endsWith s suf \<longleftrightarrow>
     length suf \<le> length s \<and> drop (length s - length suf) s = suf"

fun includesStr :: "string \<Rightarrow> string \<Rightarrow> bool" where
  "includesStr [] needle = (needle = [])"
| "includesStr (c # cs) needle = (prefix needle (c # cs) \<or> includesStr cs needle)"

definition quoted :: "string \<Rightarrow> string" where
  "quoted s = CHR 0x22 # s @ [CHR 0x22]"

fun joinSpace :: "string list \<Rightarrow> string" where
  "joinSpace [] = []"
| "joinSpace [p] = p"
| "joinSpace (p # q # ps) = p @ '' '' @ joinSpace (q # ps)"

definition isWhiteSpace :: "char \<Rightarrow> bool" where
  "isWhiteSpace c \<longleftrightarrow>
     c \<in> set [CHR 0x09, CHR 0x0A, CHR 0x0B, CHR 0x0C, CHR 0x0D, CHR 0x20]"

definition isDigit :: "char \<Rightarrow> bool" where
  "isDigit c \<longleftrightarrow> 48 \<le> (of_char c :: nat) \<and> (of_char c :: nat) \<le> 57"

definition digitValue :: "char \<Rightarrow> nat" where
  "digitValue c = (of_char c :: nat) - 48"

definition digitsValue :: "string \<Rightarrow> nat" where
  "digitsValue ds = foldl (\<lambda>acc c. 10 * acc + digitValue c) 0 ds"

text \<open>
  The Number values \<open>parseInt\<close> can return: \<open>NaN\<close>, the two infinities, and a
  double whose value is an integer.
\<close>

datatype number = NaN | PosInfinity | NegInfinity | Finite int

fun bitLength :: "nat \<Rightarrow> nat" where
  "bitLength n = (if n = 0 then 0 else Suc (bitLength (n div 2)))"

text \<open>
  The double nearest to a natural number, ties to even: a number of at most 53 bits
  is exact, a longer one keeps its 53 leading bits, rounded; \<open>None\<close> when the
  result needs more than 1024 bits, which is beyond the largest finite double.
\<close>

definition roundToDouble :: "nat \<Rightarrow> nat option" where
  "roundToDouble n =
     (if bitLength n \<le> 53 then Some n
      else
        (let e = bitLength n - 53;
             q = n div 2 ^ e;
             r = n mod 2 ^ e;
             half = 2 ^ (e - 1);
             m = (if half < r \<or> (r = half \<and> odd q) then q + 1 else q) * 2 ^ e
         in if bitLength m \<le> 1024 then Some m else None))"

text \<open>
  \<open>Number.parseInt(s, 10)\<close>: leading white space is skipped, one sign is read, then the
  longest run of decimal digits; what follows the digits is ignored, and no digit at
  all gives \<open>NaN\<close>. The integer read is converted to a double. (An implementation
  may read the digits after the 20th significant one as zeros; the model rounds the
  exact integer.)
\<close>

definition parseInt :: "string \<Rightarrow> number" where
  "parseInt s =
     (let t = dropWhile isWhiteSpace s;
          neg = (t \<noteq> [] \<and> hd t = CHR ''-'');
          u = (if t \<noteq> [] \<and> (hd t = CHR ''+'' \<or> hd t = CHR ''-'') then tl t else t);
          ds = takeWhile isDigit u
      in if ds = [] then NaN
         else
           (case roundToDouble (digitsValue ds) of
              None \<Rightarrow> (if neg then NegInfinity else PosInfinity)
            | Some m \<Rightarrow> Finite ((if neg then - 1 else 1) * int m)))"

text \<open>\<open>String(n)\<close> for a non-negative integer: its decimal digits.\<close>

fun natToString :: "nat \<Rightarrow> string" where
  "natToString n =
     (if n < 10 then [char_of (48 + n)]
      else natToString (n div 10) @ [char_of (48 + n mod 10)])"

section \<open>Argument parsing\<close>

text \<open>\<open>args.indexOf(flag)\<close>, with \<open>-1\<close> as \<open>None\<close>.\<close>

fun indexOf :: "string list \<Rightarrow> string \<Rightarrow> nat option" where
  "indexOf [] x = None"
| "indexOf (a # as) x = (if a = x then Some 0 else map_option Suc (indexOf as x))"

definition argsInclude :: "string list \<Rightarrow> string \<Rightarrow> bool" where
  "argsInclude args x \<longleftrightarrow> x \<in> set args"

text \<open>
  \<open>getArg\<close>: the element after the first occurrence of the flag, \<open>null\<close> when the flag
  is absent, is the last argument, or is followed by the empty string (which is falsy).
\<close>

definition getArg :: "string list \<Rightarrow> string \<Rightarrow> string option" where
  "getArg args flag =
     (case indexOf args flag of
        None \<Rightarrow> None
      | Some index \<Rightarrow>
          (if index + 1 < length args \<and> args ! (index + 1) \<noteq> []
           then Some (args ! (index + 1)) else None))"

definition orDefault :: "string option \<Rightarrow> string \<Rightarrow> string" where
  "orDefault v d = (case v of None \<Rightarrow> d | Some s \<Rightarrow> s)"

definition wantsHelp :: "string list \<Rightarrow> bool" where
  "wantsHelp args \<longleftrightarrow> argsInclude args ''--help'' \<or> argsInclude args ''-h''"

definition ALLOWED_COMMANDS :: "string set" where
  "ALLOWED_COMMANDS = {''build'', ''test'', ''archive'', ''clean''}"

definition command :: "string list \<Rightarrow> string" where
  "command args = toLowerCase (orDefault (getArg args ''--command'') ''build'')"

definition usesSimulatorDestination :: "string \<Rightarrow> bool" where
  "usesSimulatorDestination cmd \<longleftrightarrow> cmd = ''build'' \<or> cmd = ''test''"

definition projectPath :: "string list \<Rightarrow> string option" where
  "projectPath args = getArg args ''--project''"

definition scheme :: "string list \<Rightarrow> string option" where
  "scheme args = getArg args ''--scheme''"

definition deviceName :: "string list \<Rightarrow> string" where
  "deviceName args = orDefault (getArg args ''--device'') ''iPhone 16 Pro''"

definition logFile :: "string list \<Rightarrow> string" where
  "logFile args = orDefault (getArg args ''--log'') ''/tmp/xcode-build.log''"

definition quiet :: "string list \<Rightarrow> bool" where
  "quiet args \<longleftrightarrow> argsInclude args ''--quiet''"

definition archivePathArg :: "string list \<Rightarrow> string option" where
  "archivePathArg args = getArg args ''--archive-path''"

definition defaultTimeout :: "string list \<Rightarrow> nat" where
  "defaultTimeout args = (if command args = ''test'' then 600 else 300)"

definition timeoutArg :: "string list \<Rightarrow> string option" where
  "timeoutArg args = getArg args ''--timeout''"

definition timeout :: "string list \<Rightarrow> number" where
  "timeout args =
     parseInt (case timeoutArg args of
                 None \<Rightarrow> natToString (defaultTimeout args)
               | Some s \<Rightarrow> s)"

section \<open>Console output and external interactions\<close>

text \<open>
  One constructor per console call of the script, with the values it interpolates.
\<close>

datatype message =
    Usage
  | MissingRequiredArguments
  | InvalidCommand string
  | InvalidTimeout "string option"
  | ArchivePathRequired
  | NoDescriptorFound string
  | UncaughtException
  | Banner string string string "string option" "string option" int string
  | DeviceNotFound string
  | AvailableDevicesHeader
  | Raw string
  | DeviceFound string
  | FailedToListDevices
  | Starting string string
  | ClearProgressLine
  | TimedOutReport string int
  | SuccessReport string
  | FailedReport string "int option"
  | ErrorLine string
  | DeviceTip
  | FullLog string
  | CancelledByUser string
  | Terminated string

datatype action =
    Out message
  | Err message
  | ReadDir string
  | ExecListDevices
  | CreateWriteStream string
  | SpawnShell string string

text \<open>
  The collaborators of the script: \<open>fs.readdirSync\<close> (\<open>None\<close> when it throws), the
  output of \<open>xcrun simctl list devices available\<close> (\<open>None\<close> when \<open>execSync\<close> throws),
  \<open>path.resolve\<close>, and the pid of the spawned shell.
\<close>

record env =
  readdirSync :: "string \<Rightarrow> string list option"
  listDevices :: "string option"
  pathResolve :: "string \<Rightarrow> string \<Rightarrow> string"
  spawnPid :: "nat option"

definition envWith :: "string list option \<Rightarrow> string option \<Rightarrow> env" where
  "envWith entries devices =
     \<lparr>readdirSync = (\<lambda>_. entries), listDevices = devices,
      pathResolve = (\<lambda>dir p. if p \<noteq> [] \<and> hd p = CHR ''/'' then p else dir @ ''/'' @ p),
      spawnPid = Some 4242\<rparr>"

record config =
  cfgCommand :: string
  cfgTimeout :: int
  cfgLogFile :: string
  cfgQuiet :: bool

datatype setup_result =
    Exit int "action list"
  | Supervise config "nat option" "action list"

fun traceOf :: "setup_result \<Rightarrow> action list" where
  "traceOf (Exit code tr) = tr"
| "traceOf (Supervise cfg p tr) = tr"

fun exitCodeOf :: "setup_result \<Rightarrow> int option" where
  "exitCodeOf (Exit code tr) = Some code"
| "exitCodeOf (Supervise cfg p tr) = None"

fun isSpawn :: "action \<Rightarrow> bool" where
  "isSpawn (SpawnShell cmd cwd) = True"
| "isSpawn _ = False"

fun isReadDir :: "action \<Rightarrow> bool" where
  "isReadDir (ReadDir dir) = True"
| "isReadDir _ = False"

definition spawnsChild :: "setup_result \<Rightarrow> bool" where
  "spawnsChild r \<longleftrightarrow> list_ex isSpawn (traceOf r)"

definition readsDirectory :: "setup_result \<Rightarrow> bool" where
  "readsDirectory r \<longleftrightarrow> list_ex isReadDir (traceOf r)"

section \<open>The script up to the spawn\<close>

definition workspaceFile :: "string list \<Rightarrow> string option" where
  "workspaceFile entries = find (\<lambda>f. endsWith f ''.xcworkspace'') entries"

definition projectFile :: "string list \<Rightarrow> string option" where
  "projectFile entries = find (\<lambda>f. endsWith f ''.xcodeproj'') entries"

definition buildTarget :: "string list \<Rightarrow> string option" where
  "buildTarget entries =
     (case workspaceFile entries of
        Some w \<Rightarrow> Some (''-workspace '' @ quoted w)
      | None \<Rightarrow>
          (case projectFile entries of
             Some p \<Rightarrow> Some (''-project '' @ quoted p)
           | None \<Rightarrow> None))"

definition buildCmdParts ::
    "string \<Rightarrow> string \<Rightarrow> string \<Rightarrow> string \<Rightarrow> string option \<Rightarrow> string list" where
  "buildCmdParts target sch cmd dev archivePath =
     [''xcodebuild'', target, ''-scheme '' @ quoted sch]
     @ (if usesSimulatorDestination cmd
        then [''-destination '' @ quoted (''platform=iOS Simulator,name='' @ dev)]
        else [])
     @ [''-skipMacroValidation'']
     @ (if cmd = ''archive''
        then [''-archivePath '' @ quoted (orDefault archivePath ''null''), ''archive'']
        else [cmd])"

definition banner :: "string list \<Rightarrow> string \<Rightarrow> string \<Rightarrow> int \<Rightarrow> string option \<Rightarrow> action list" where
  "banner args dir sch t archivePath =
     (if quiet args then []
      else [Out (Banner dir sch (command args)
                   (if usesSimulatorDestination (command args) then Some (deviceName args) else None)
                   (if command args = ''archive'' then archivePath else None)
                   t (logFile args))])"

text \<open>From \<open>commandVerb\<close> to \<open>spawn\<close>: the command line, the log stream, the child.\<close>

definition launch ::
    "env \<Rightarrow> string list \<Rightarrow> string \<Rightarrow> string \<Rightarrow> string \<Rightarrow> int \<Rightarrow> string option \<Rightarrow>
     action list \<Rightarrow> setup_result" where
  "launch e args dir sch target t archivePath pre =
     (let buildCmd = joinSpace (buildCmdParts target sch (command args) (deviceName args) archivePath)
      in Supervise
           \<lparr>cfgCommand = command args, cfgTimeout = t,
            cfgLogFile = logFile args, cfgQuiet = quiet args\<rparr>
           (spawnPid e)
           (pre
            @ (if quiet args then [] else [Out (Starting (command args) (take 80 buildCmd))])
            @ [CreateWriteStream (logFile args), SpawnShell buildCmd dir]))"

text \<open>The block under \<open>// Verify device exists\<close>, then the launch.\<close>

definition verifyDevice ::
    "env \<Rightarrow> string list \<Rightarrow> string \<Rightarrow> string \<Rightarrow> string \<Rightarrow> int \<Rightarrow> string option \<Rightarrow>
     action list \<Rightarrow> setup_result" where
  "verifyDevice e args dir sch target t archivePath pre =
     (if usesSimulatorDestination (command args) then
        (case listDevices e of
           None \<Rightarrow> Exit 1 (pre @ [ExecListDevices, Err FailedToListDevices])
         | Some devices \<Rightarrow>
             if \<not> includesStr devices (deviceName args)
             then Exit 1 (pre @ [ExecListDevices, Err (DeviceNotFound (deviceName args)),
                                 Err AvailableDevicesHeader, Err (Raw devices)])
             else launch e args dir sch target t archivePath
                    (pre @ [ExecListDevices]
                     @ (if quiet args then [] else [Out (DeviceFound (deviceName args))])))
      else launch e args dir sch target t archivePath pre)"

text \<open>
  The block under \<open>// Find workspace or project file\<close>. The directory is read twice;
  both reads see the same listing. A throwing \<open>readdirSync\<close> is not caught: the
  process ends with status 1.
\<close>

definition discover ::
    "env \<Rightarrow> string list \<Rightarrow> string \<Rightarrow> string \<Rightarrow> int \<Rightarrow> setup_result" where
  "discover e args dir sch t =
     (case readdirSync e dir of
        None \<Rightarrow> Exit 1 [ReadDir dir, Err UncaughtException]
      | Some entries \<Rightarrow>
          (case buildTarget entries of
             None \<Rightarrow> Exit 1 [ReadDir dir, ReadDir dir, Err (NoDescriptorFound dir)]
           | Some target \<Rightarrow>
               (let archivePath =
                      (if command args = ''archive''
                       then map_option (pathResolve e dir) (archivePathArg args)
                       else None)
                in verifyDevice e args dir sch target t archivePath
                     ([ReadDir dir, ReadDir dir] @ banner args dir sch t archivePath))))"

text \<open>
  The argument checks, in the order of the script. The timeout guard is
  \<open>!Number.isFinite(timeout) || timeout <= 0\<close>.
\<close>

definition main :: "env \<Rightarrow> string list \<Rightarrow> setup_result" where
  "main e args =
     (if wantsHelp args then Exit 0 [Out Usage]
      else
        (case (projectPath args, scheme args) of
           (Some dir, Some sch) \<Rightarrow>
             if command args \<notin> ALLOWED_COMMANDS
             then Exit 1 [Err (InvalidCommand (command args)), Err Usage]
             else
               (case timeout args of
                  Finite t \<Rightarrow>
                    if t \<le> 0
                    then Exit 1 [Err (InvalidTimeout (timeoutArg args)), Err Usage]
                    else if command args = ''archive'' \<and> archivePathArg args = None
                    then Exit 1 [Err ArchivePathRequired, Err Usage]
                    else discover e args dir sch t
                | _ \<Rightarrow> Exit 1 [Err (InvalidTimeout (timeoutArg args)), Err Usage])
         | _ \<Rightarrow> Exit 1 [Err MissingRequiredArguments, Err Usage]))"

section \<open>The supervised run\<close>

text \<open>
  The mutable state after \<open>spawn\<close>: the \<open>timedOut\<close> flag, whether the timeout timer
  and the progress interval are still armed, \<open>build.pid\<close>, whether the process group
  still exists, and what the handlers have done so far. \<open>pendingExits\<close> holds the
  codes of the armed \<open>setTimeout(() => process.exit(code), 100)\<close> timers in arming
  order; all have the same delay, so they fire in that order. \<open>exited\<close> is the
  exit status once \<open>process.exit\<close> has run.
\<close>

record run_state =
  timedOut :: bool
  timeoutArmed :: bool
  progressArmed :: bool
  pid :: "nat option"
  groupAlive :: bool
  closeSeen :: bool
  killsSent :: nat
  killErrors :: nat
  directKills :: nat
  logEnds :: nat
  pendingExits :: "int option list"
  exitCalls :: nat
  exited :: "int option"
  console :: "action list"

definition spawned :: "config \<Rightarrow> nat option \<Rightarrow> run_state" where
  "spawned cfg p =
     \<lparr>timedOut = False, timeoutArmed = True, progressArmed = \<not> cfgQuiet cfg,
      pid = p, groupAlive = (p \<noteq> None), closeSeen = False,
      killsSent = 0, killErrors = 0, directKills = 0, logEnds = 0,
      pendingExits = [], exitCalls = 0, exited = None, console = []\<rparr>"

definition emit :: "action list \<Rightarrow> run_state \<Rightarrow> run_state" where
  "emit acts s = s\<lparr>console := console s @ acts\<rparr>"

text \<open>
  The timeout callback: set the flag, kill the process group; if that throws (the
  group is gone), fall back to \<open>build.kill\<close>.
\<close>

definition onTimeout :: "run_state \<Rightarrow> run_state" where
  "onTimeout s =
     (let s1 = s\<lparr>timedOut := True, timeoutArmed := False\<rparr>
      in case pid s1 of
           None \<Rightarrow> s1
         | Some p \<Rightarrow>
             if groupAlive s1
             then s1\<lparr>killsSent := killsSent s1 + 1, groupAlive := False\<rparr>
             else s1\<lparr>directKills := directKills s1 + 1\<rparr>)"

text \<open>
  \<open>cleanup(code)\<close>: clear the timers, kill the process group (an error is swallowed),
  end the log stream, arm the exit timer.
\<close>

definition cleanup :: "int option \<Rightarrow> run_state \<Rightarrow> run_state" where
  "cleanup code s =
     (let s1 = s\<lparr>timeoutArmed := False, progressArmed := False\<rparr>;
          s2 = (case pid s1 of
                  None \<Rightarrow> s1
                | Some p \<Rightarrow>
                    if groupAlive s1
                    then s1\<lparr>killsSent := killsSent s1 + 1, groupAlive := False\<rparr>
                    else s1\<lparr>killErrors := killErrors s1 + 1\<rparr>);
          s3 = s2\<lparr>logEnds := logEnds s2 + 1\<rparr>
      in s3\<lparr>pendingExits := pendingExits s3 @ [code]\<rparr>)"

definition isLineTerminator :: "char \<Rightarrow> bool" where
  "isLineTerminator c \<longleftrightarrow> c = CHR 0x0A \<or> c = CHR 0x0D"

text \<open>
  \<open>logContent.match(/error:.*$/m)\<close>, the matched text: from the leftmost \<open>error:\<close> to
  the end of its line.
\<close>

fun errorMatch :: "string \<Rightarrow> string option" where
  "errorMatch [] = None"
| "errorMatch (c # cs) =
     (if prefix ''error:'' (c # cs)
      then Some (takeWhile (\<lambda>x. \<not> isLineTerminator x) (c # cs))
      else errorMatch cs)"

text \<open>
  What the \<open>try\<close> block of the failure branch prints; \<open>None\<close> is a throwing
  \<open>readFileSync\<close>, caught and ignored.
\<close>

definition diagnostics :: "string option \<Rightarrow> action list" where
  "diagnostics logRead =
     (case logRead of
        None \<Rightarrow> []
      | Some logContent \<Rightarrow>
          (case errorMatch logContent of None \<Rightarrow> [] | Some m \<Rightarrow> [Err (ErrorLine m)])
          @ (if includesStr logContent ''Unable to find a device'' then [Err DeviceTip] else []))"

text \<open>
  The \<open>close\<close> handler. \<open>code\<close> is the child's exit code, \<open>None\<close> (\<open>null\<close>) when a
  signal ended it.
\<close>

definition onClose :: "config \<Rightarrow> int option \<Rightarrow> string option \<Rightarrow> run_state \<Rightarrow> run_state" where
  "onClose cfg code logRead s =
     (let s0 = emit (if cfgQuiet cfg then [] else [Out ClearProgressLine]) s;
          commandLabel = toUpperCase (cfgCommand cfg)
      in if timedOut s0 then
           cleanup (Some 124)
             (emit [Err (TimedOutReport commandLabel (cfgTimeout cfg)),
                    Err (FullLog (cfgLogFile cfg))] s0)
         else if code = Some 0 then
           cleanup (Some 0)
             (emit [Out (SuccessReport commandLabel), Out (FullLog (cfgLogFile cfg))] s0)
         else
           cleanup code
             (emit ([Err (FailedReport commandLabel code)] @ diagnostics logRead
                    @ [Err (FullLog (cfgLogFile cfg))]) s0))"

definition onSigint :: "config \<Rightarrow> run_state \<Rightarrow> run_state" where
  "onSigint cfg s =
     cleanup (Some 130) (emit [Out (CancelledByUser (toUpperCase (cfgCommand cfg)))] s)"

definition onSigterm :: "config \<Rightarrow> run_state \<Rightarrow> run_state" where
  "onSigterm cfg s =
     cleanup (Some 143) (emit [Out (Terminated (toUpperCase (cfgCommand cfg)))] s)"

text \<open>\<open>process.exit(code)\<close>: \<open>null\<close> exits with status 0.\<close>

definition exitStatus :: "int option \<Rightarrow> int" where
  "exitStatus code = (case code of None \<Rightarrow> 0 | Some c \<Rightarrow> c)"

text \<open>
  The events the event loop delivers after the spawn: the timeout timer, the child's
  \<open>close\<close> (once, with the exit code and what reading the log file gives at that
  moment), the two signals, and the oldest armed exit timer. Arrival of child output
  (written to the log stream) and the progress tick are not events of the model.
  Once \<open>process.exit\<close> has run, nothing happens any more.
\<close>

datatype event =
    TimeoutFires
  | ChildClose "int option" "string option"
  | Sigint
  | Sigterm
  | GraceElapsed

definition step :: "config \<Rightarrow> run_state \<Rightarrow> event \<Rightarrow> run_state" where
  "step cfg s ev =
     (if exited s \<noteq> None then s
      else
        (case ev of
           TimeoutFires \<Rightarrow> if timeoutArmed s then onTimeout s else s
         | ChildClose code logRead \<Rightarrow>
             if closeSeen s then s else onClose cfg code logRead (s\<lparr>closeSeen := True\<rparr>)
         | Sigint \<Rightarrow> onSigint cfg s
         | Sigterm \<Rightarrow> onSigterm cfg s
         | GraceElapsed \<Rightarrow>
             (case pendingExits s of
                [] \<Rightarrow> s
              | code # rest \<Rightarrow>
                  s\<lparr>pendingExits := rest, exitCalls := exitCalls s + 1,
                    exited := Some (exitStatus code)\<rparr>)))"

definition run :: "config \<Rightarrow> run_state \<Rightarrow> event list \<Rightarrow> run_state" where
  "run cfg s evs = foldl (step cfg) s evs"

text \<open>Teardown has not begun: no exit timer is armed and the process is running.\<close>

definition live :: "run_state \<Rightarrow> bool" where
  "live s \<longleftrightarrow> exited s = None \<and> pendingExits s = []"

definition exampleConfig :: config where
  "exampleConfig = \<lparr>cfgCommand = ''build'', cfgTimeout = 300,
      cfgLogFile = ''/tmp/xcode-build.log'', cfgQuiet = True\<rparr>"

section \<open>Default timeout\<close>

lemma natToString_600: "natToString 600 = ''600''"
  by code_simp

lemma natToString_300: "natToString 300 = ''300''"
  by code_simp

lemma parseInt_600: "parseInt ''600'' = Finite 600"
  by code_simp

lemma parseInt_300: "parseInt ''300'' = Finite 300"
  by code_simp

text \<open>
  Claim C5. When no \<open>--timeout\<close> value is supplied, the effective timeout is 600
  seconds if the operation is \<open>test\<close> and 300 seconds for every other operation.
\<close>

theorem default_timeout:
  "timeoutArg args = None \<Longrightarrow>
     timeout args = Finite (if command args = ''test'' then 600 else 300)"
  by (simp add: timeout_def defaultTimeout_def natToString_600 natToString_300
        parseInt_600 parseInt_300 del: natToString.simps)

lemma timeoutArg_absent_example:
  "timeoutArg [''--project'', ''/p'', ''--scheme'', ''App'', ''--command'', ''TEST''] = None"
  by (simp add: timeoutArg_def getArg_def)

lemma command_TEST_example:
  "command [''--project'', ''/p'', ''--scheme'', ''App'', ''--command'', ''TEST''] = ''test''"
  by code_simp

theorem default_timeout_witness:
  "timeoutArg [''--project'', ''/p'', ''--scheme'', ''App'', ''--command'', ''TEST''] = None \<and>
   timeout [''--project'', ''/p'', ''--scheme'', ''App'', ''--command'', ''TEST''] = Finite 600"
  using default_timeout [OF timeoutArg_absent_example]
  by (simp add: timeoutArg_absent_example command_TEST_example)

section \<open>Runs and the first armed exit\<close>

lemma run_Nil: "run cfg s [] = s" by (simp add: run_def)
lemma run_Cons: "run cfg s (e # evs) = run cfg (step cfg s e) evs" by (simp add: run_def)

lemma step_exited: "exited s = Some x \<Longrightarrow> step cfg s ev = s"
  by (simp add: step_def)

lemma run_exited: "exited s = Some x \<Longrightarrow> run cfg s evs = s"
  by (induction evs) (simp_all add: run_Nil run_Cons step_exited)

lemma cleanup_exited: "exited (cleanup code s) = exited s"
  by (simp add: cleanup_def Let_def split: option.splits)

lemma cleanup_pending: "pendingExits (cleanup code s) = pendingExits s @ [code]"
  by (simp add: cleanup_def Let_def split: option.splits)

lemma emit_exited: "exited (emit acts s) = exited s" by (simp add: emit_def)
lemma emit_pending: "pendingExits (emit acts s) = pendingExits s" by (simp add: emit_def)
lemma emit_timedOut: "timedOut (emit acts s) = timedOut s" by (simp add: emit_def)

lemma onTimeout_exited: "exited (onTimeout s) = exited s"
  by (simp add: onTimeout_def Let_def split: option.splits)
lemma onTimeout_pending: "pendingExits (onTimeout s) = pendingExits s"
  by (simp add: onTimeout_def Let_def split: option.splits)

lemma onClose_exited: "exited (onClose cfg code lg s) = exited s"
  by (simp add: onClose_def Let_def cleanup_exited emit_exited)

lemma onClose_pending:
  "pendingExits (onClose cfg code lg s) =
     pendingExits s @ [if timedOut s then Some 124 else if code = Some 0 then Some 0 else code]"
  by (simp add: onClose_def Let_def cleanup_pending emit_pending emit_timedOut)

lemma step_keeps_head:
  assumes "exited s = None" "pendingExits s = c # cs" "ev \<noteq> GraceElapsed"
  shows "exited (step cfg s ev) = None \<and> (\<exists>cs'. pendingExits (step cfg s ev) = c # cs')"
  using assms
  by (cases ev)
     (simp_all add: step_def onSigint_def onSigterm_def cleanup_exited cleanup_pending
        emit_exited emit_pending onTimeout_exited onTimeout_pending onClose_exited onClose_pending)

lemma step_grace:
  "exited s = None \<Longrightarrow> pendingExits s = c # cs \<Longrightarrow>
     exited (step cfg s GraceElapsed) = Some (exitStatus c)"
  by (simp add: step_def)

lemma first_exit_wins:
  "exited s = None \<Longrightarrow> pendingExits s = c # cs \<Longrightarrow>
     exited (run cfg s (evs @ [GraceElapsed])) = Some (exitStatus c)"
proof (induction evs arbitrary: s cs)
  case Nil
  then show ?case by (simp add: run_Cons run_Nil step_grace)
next
  case (Cons e evs)
  show ?case
  proof (cases "e = GraceElapsed")
    case True
    with Cons.prems have "exited (step cfg s e) = Some (exitStatus c)"
      by (simp add: step_grace)
    then show ?thesis by (simp add: run_Cons run_exited)
  next
    case False
    with Cons.prems obtain cs' where
      "exited (step cfg s e) = None" "pendingExits (step cfg s e) = c # cs'"
      using step_keeps_head by blast
    then show ?thesis using Cons.IH by (simp add: run_Cons)
  qed
qed

lemma first_exit_only:
  "exited s = None \<Longrightarrow> pendingExits s = c # cs \<Longrightarrow>
     exited (run cfg s evs) = None \<or> exited (run cfg s evs) = Some (exitStatus c)"
proof (induction evs arbitrary: s cs)
  case Nil
  then show ?case by (simp add: run_Nil)
next
  case (Cons e evs)
  show ?case
  proof (cases "e = GraceElapsed")
    case True
    with Cons.prems have "exited (step cfg s e) = Some (exitStatus c)"
      by (simp add: step_grace)
    then show ?thesis by (simp add: run_Cons run_exited)
  next
    case False
    with Cons.prems obtain cs' where
      "exited (step cfg s e) = None" "pendingExits (step cfg s e) = c # cs'"
      using step_keeps_head by blast
    then show ?thesis using Cons.IH by (simp add: run_Cons)
  qed
qed

section \<open>Exit codes\<close>

lemma close_first:
  assumes "live s" "\<not> closeSeen s"
  shows "exited (run cfg s (ChildClose code lg # evs @ [GraceElapsed])) =
           Some (exitStatus (if timedOut s then Some 124 else if code = Some 0 then Some 0 else code))"
proof -
  let ?s1 = "step cfg s (ChildClose code lg)"
  from assms have e: "exited ?s1 = None"
    by (simp add: step_def live_def onClose_exited)
  from assms have p: "pendingExits ?s1 =
      [if timedOut s then Some 124 else if code = Some 0 then Some 0 else code]"
    by (simp add: step_def live_def onClose_pending)
  show ?thesis
    using first_exit_wins [OF e p] by (simp add: run_Cons)
qed

lemma signal_first:
  assumes "live s"
  shows "exited (run cfg s (Sigint # evs @ [GraceElapsed])) = Some 130"
    and "exited (run cfg s (Sigterm # evs @ [GraceElapsed])) = Some 143"
proof -
  from assms have "exited (step cfg s Sigint) = None" "pendingExits (step cfg s Sigint) = [Some 130]"
    by (simp_all add: step_def live_def onSigint_def cleanup_exited cleanup_pending emit_exited emit_pending)
  from first_exit_wins [OF this]
  show "exited (run cfg s (Sigint # evs @ [GraceElapsed])) = Some 130"
    by (simp add: run_Cons exitStatus_def)
  from assms have "exited (step cfg s Sigterm) = None" "pendingExits (step cfg s Sigterm) = [Some 143]"
    by (simp_all add: step_def live_def onSigterm_def cleanup_exited cleanup_pending emit_exited emit_pending)
  from first_exit_wins [OF this]
  show "exited (run cfg s (Sigterm # evs @ [GraceElapsed])) = Some 143"
    by (simp add: run_Cons exitStatus_def)
qed

lemma onTimeout_fields:
  "timedOut (onTimeout s)" "closeSeen (onTimeout s) = closeSeen s"
  by (simp_all add: onTimeout_def Let_def split: option.splits)

lemma timeout_then_close:
  assumes "live s" "\<not> closeSeen s" "timeoutArmed s"
  shows "exited (run cfg s (TimeoutFires # ChildClose code lg # evs @ [GraceElapsed])) = Some 124"
proof -
  let ?s1 = "step cfg s TimeoutFires"
  from assms have s1: "?s1 = onTimeout s" by (simp add: step_def live_def)
  with assms have "live ?s1" "\<not> closeSeen ?s1" "timedOut ?s1"
    by (simp_all add: live_def onTimeout_exited onTimeout_pending onTimeout_fields)
  from close_first [OF this(1,2)] this(3)
  have "exited (run cfg ?s1 (ChildClose code lg # evs @ [GraceElapsed])) = Some 124"
    by (simp add: exitStatus_def)
  then show ?thesis by (simp add: run_Cons)
qed

lemma setup_exit_codes:
  "exitCodeOf (main e args) = Some x \<Longrightarrow> \<not> wantsHelp args \<Longrightarrow> x = 1"
  by (auto simp: main_def discover_def verifyDevice_def launch_def Let_def
        split: option.splits number.splits if_splits)

lemma includesStr_sublist: "includesStr hay needle \<longleftrightarrow> sublist needle hay"
  by (induction hay) (simp_all add: sublist_Cons_right)

text \<open>
  The exit status by the trigger that starts teardown, whatever events follow it: the
  code of a closing child (0, or its own non-zero code) when the run has not timed
  out, 124 when the timeout timer fires and the child then closes, 130 on SIGINT,
  143 on SIGTERM.
\<close>

lemma exit_code_by_trigger:
  assumes "live s" and "\<not> closeSeen s"
  shows "(\<not> timedOut s \<longrightarrow>
            exited (run cfg s (ChildClose (Some 0) lg # evs @ [GraceElapsed])) = Some 0)
       \<and> (\<not> timedOut s \<and> c \<noteq> 0 \<longrightarrow>
            exited (run cfg s (ChildClose (Some c) lg # evs @ [GraceElapsed])) = Some c)
       \<and> (timeoutArmed s \<longrightarrow>
            exited (run cfg s (TimeoutFires # ChildClose code lg # evs @ [GraceElapsed])) = Some 124)
       \<and> exited (run cfg s (Sigint # evs @ [GraceElapsed])) = Some 130
       \<and> exited (run cfg s (Sigterm # evs @ [GraceElapsed])) = Some 143"
  using close_first [OF assms] timeout_then_close [OF assms] signal_first [OF assms(1)]
  by (simp add: exitStatus_def)

lemma spawned_fields:
  "live (spawned cfg p)" "\<not> closeSeen (spawned cfg p)" "\<not> timedOut (spawned cfg p)"
  "timeoutArmed (spawned cfg p)"
  by (simp_all add: spawned_def live_def)

text \<open>
  Every error the script detects before the spawn ends the run with status 1 and
  without a child: a missing project or scheme, an operation outside the allowed set,
  a timeout that \<open>parseInt\<close> makes \<open>NaN\<close>, infinite or not positive, a missing
  archive path, an unreadable directory, no descriptor, a failing device query, a
  device name absent from the listing.
\<close>

lemma setup_errors_exit_1:
  assumes "\<not> wantsHelp args"
  shows "(projectPath args = None \<or> scheme args = None \<longrightarrow>
            exitCodeOf (main e args) = Some 1 \<and> \<not> spawnsChild (main e args))
       \<and> (command args \<notin> ALLOWED_COMMANDS \<longrightarrow>
            exitCodeOf (main e args) = Some 1 \<and> \<not> spawnsChild (main e args))
       \<and> ((\<forall>t. timeout args = Finite t \<longrightarrow> t \<le> 0) \<longrightarrow>
            exitCodeOf (main e args) = Some 1 \<and> \<not> spawnsChild (main e args))
       \<and> (command args = ''archive'' \<and> archivePathArg args = None \<longrightarrow>
            exitCodeOf (main e args) = Some 1 \<and> \<not> spawnsChild (main e args))
       \<and> (projectPath args = Some dir \<and> readdirSync e dir = None \<longrightarrow>
            exitCodeOf (main e args) = Some 1 \<and> \<not> spawnsChild (main e args))
       \<and> (projectPath args = Some dir \<and> readdirSync e dir = Some entries
            \<and> buildTarget entries = None \<longrightarrow>
            exitCodeOf (main e args) = Some 1 \<and> \<not> spawnsChild (main e args))
       \<and> ((command args = ''build'' \<or> command args = ''test'') \<and> listDevices e = None \<longrightarrow>
            exitCodeOf (main e args) = Some 1 \<and> \<not> spawnsChild (main e args))
       \<and> ((command args = ''build'' \<or> command args = ''test'') \<and> listDevices e = Some devices
            \<and> \<not> sublist (deviceName args) devices \<longrightarrow>
            exitCodeOf (main e args) = Some 1 \<and> \<not> spawnsChild (main e args))"
  using assms
  by (auto simp: main_def discover_def verifyDevice_def spawnsChild_def banner_def
        usesSimulatorDestination_def includesStr_sublist Let_def
        split: option.splits number.splits if_splits)

text \<open>
  Claim C1. The script evaluated at \<open>--timeout 1.5\<close>, an invalid timeout argument:
  \<open>parseInt\<close> reads 1, the timeout check passes, the run does not end with status 1
  and the child is spawned.
\<close>

theorem fractional_timeout_accepted:
  "timeoutArg [''--project'', ''/p'', ''--scheme'', ''App'', ''--timeout'', ''1.5''] = Some ''1.5''
   \<and> timeout [''--project'', ''/p'', ''--scheme'', ''App'', ''--timeout'', ''1.5''] = Finite 1
   \<and> exitCodeOf (main (envWith (Some [''App.xcodeproj'']) (Some ''iPhone 16 Pro''))
        [''--project'', ''/p'', ''--scheme'', ''App'', ''--timeout'', ''1.5'']) \<noteq> Some 1
   \<and> spawnsChild (main (envWith (Some [''App.xcodeproj'']) (Some ''iPhone 16 Pro''))
        [''--project'', ''/p'', ''--scheme'', ''App'', ''--timeout'', ''1.5''])"
  by code_simp

section \<open>The timed-out flag and teardown\<close>

lemma timedOut_step: "timedOut s \<Longrightarrow> timedOut (step cfg s ev)"
  by (cases ev)
     (simp_all add: step_def onClose_def onSigint_def onSigterm_def onTimeout_def cleanup_def
        emit_def Let_def split: option.splits list.splits)

lemma timedOut_run: "timedOut s \<Longrightarrow> timedOut (run cfg s evs)"
  by (induction evs arbitrary: s) (simp_all add: run_Nil run_Cons timedOut_step)

lemma onClose_console_timedOut:
  "timedOut s \<Longrightarrow>
     console (onClose cfg code lg s) =
       console s @ (if cfgQuiet cfg then [] else [Out ClearProgressLine])
       @ [Err (TimedOutReport (toUpperCase (cfgCommand cfg)) (cfgTimeout cfg)),
          Err (FullLog (cfgLogFile cfg))]"
  by (simp add: onClose_def cleanup_def emit_def Let_def split: option.splits)

text \<open>
  Claim C2, as amended. When the timed-out flag is set, the \<open>close\<close> handler,
  whenever it runs, reports the timeout, whatever exit code the child reports, and the
  flag is never cleared. The process then exits with 124, whatever events follow,
  unless a signal has started teardown before the handler ran; in that case the exit
  status is the code of the earliest armed exit timer.
\<close>

theorem timeout_flag_overrides_exit_code:
  assumes "timedOut s" and "exited s = None" and "\<not> closeSeen s"
  shows "console (step cfg s (ChildClose code lg)) =
           console s @ (if cfgQuiet cfg then [] else [Out ClearProgressLine])
           @ [Err (TimedOutReport (toUpperCase (cfgCommand cfg)) (cfgTimeout cfg)),
              Err (FullLog (cfgLogFile cfg))]
       \<and> (pendingExits s = [] \<longrightarrow>
            exited (run cfg s (ChildClose code lg # evs @ [GraceElapsed])) = Some 124)
       \<and> (pendingExits s = c # cs \<longrightarrow>
            exited (run cfg s (ChildClose code lg # evs @ [GraceElapsed])) = Some (exitStatus c))
       \<and> timedOut (run cfg s evs)"
proof -
  from assms have "step cfg s (ChildClose code lg) = onClose cfg code lg (s\<lparr>closeSeen := True\<rparr>)"
    by (simp add: step_def)
  with assms(1) have "console (step cfg s (ChildClose code lg)) =
           console s @ (if cfgQuiet cfg then [] else [Out ClearProgressLine])
           @ [Err (TimedOutReport (toUpperCase (cfgCommand cfg)) (cfgTimeout cfg)),
              Err (FullLog (cfgLogFile cfg))]"
    by (simp add: onClose_console_timedOut)
  moreover have "exited (run cfg s (ChildClose code lg # evs @ [GraceElapsed])) = Some 124"
    if "pendingExits s = []"
  proof -
    from that assms(2) have "live s" by (simp add: live_def)
    from close_first [OF this assms(3)] assms(1) show ?thesis
      by (simp add: exitStatus_def)
  qed
  moreover have "exited (run cfg s (ChildClose code lg # evs @ [GraceElapsed])) = Some (exitStatus c)"
    if "pendingExits s = c # cs"
    using first_exit_wins [OF assms(2) that, of cfg "ChildClose code lg # evs"] by simp
  moreover from assms(1) have "timedOut (run cfg s evs)" by (rule timedOut_run)
  ultimately show ?thesis by blast
qed

theorem timeout_flag_overrides_exit_code_witness:
  "timedOut (onTimeout (spawned exampleConfig (Some 4242)))
   \<and> exited (onTimeout (spawned exampleConfig (Some 4242))) = None
   \<and> \<not> closeSeen (onTimeout (spawned exampleConfig (Some 4242)))
   \<and> pendingExits (onTimeout (spawned exampleConfig (Some 4242))) = []
   \<and> exited (run exampleConfig (onTimeout (spawned exampleConfig (Some 4242)))
        [ChildClose (Some 0) None, Sigterm, GraceElapsed]) = Some 124
   \<and> pendingExits (onSigint exampleConfig (onTimeout (spawned exampleConfig (Some 4242))))
        = [Some 130]
   \<and> exited (run exampleConfig (onSigint exampleConfig (onTimeout (spawned exampleConfig (Some 4242))))
        [ChildClose (Some 0) None, Sigterm, GraceElapsed]) = Some 130"
proof -
  have h: "timedOut (onTimeout (spawned exampleConfig (Some 4242)))"
    "exited (onTimeout (spawned exampleConfig (Some 4242))) = None"
    "\<not> closeSeen (onTimeout (spawned exampleConfig (Some 4242)))"
    by (simp_all add: onTimeout_def spawned_def)
  have p: "pendingExits (onTimeout (spawned exampleConfig (Some 4242))) = []"
    by (simp add: onTimeout_def spawned_def)
  have k: "timedOut (onSigint exampleConfig (onTimeout (spawned exampleConfig (Some 4242))))"
    "exited (onSigint exampleConfig (onTimeout (spawned exampleConfig (Some 4242)))) = None"
    "\<not> closeSeen (onSigint exampleConfig (onTimeout (spawned exampleConfig (Some 4242))))"
    by (simp_all add: onSigint_def cleanup_def emit_def onTimeout_def spawned_def Let_def)
  have q: "pendingExits (onSigint exampleConfig (onTimeout (spawned exampleConfig (Some 4242))))
        = [Some 130]"
    by (simp add: onSigint_def cleanup_def emit_def onTimeout_def spawned_def Let_def)
  show ?thesis
    using h p q
      timeout_flag_overrides_exit_code [OF h, where cfg = exampleConfig
        and code = "Some 0" and lg = None and evs = "[Sigterm]"]
      timeout_flag_overrides_exit_code [OF k, where cfg = exampleConfig
        and code = "Some 0" and lg = None and evs = "[Sigterm]" and c = "Some 130" and cs = "[]"]
    by (simp add: exitStatus_def)
qed

text \<open>
  Claim C2 as stated fails: the timer sets the flag, SIGINT arrives before the child's
  \<open>close\<close>, and the exit timer armed by the SIGINT handler fires first.
\<close>

theorem timeout_then_interrupt_counterexample:
  "timedOut (run exampleConfig (spawned exampleConfig (Some 4242)) [TimeoutFires])
   \<and> exited (run exampleConfig (spawned exampleConfig (Some 4242))
        [TimeoutFires, Sigint, ChildClose None None, GraceElapsed]) = Some 130"
  by (simp add: run_def step_def spawned_def onTimeout_def onSigint_def onClose_def cleanup_def
        emit_def exitStatus_def exampleConfig_def Let_def)

text \<open>
  Claim C3 as stated fails: \<open>cleanup\<close> has no latch. A SIGINT right after a normal
  completion runs the cleanup steps a second time and arms a second exit timer.
\<close>

theorem teardown_runs_twice_counterexample:
  "logEnds (run exampleConfig (spawned exampleConfig (Some 4242))
      [ChildClose (Some 0) None, Sigint]) = 2
   \<and> pendingExits (run exampleConfig (spawned exampleConfig (Some 4242))
      [ChildClose (Some 0) None, Sigint]) = [Some 0, Some 130]
   \<and> killsSent (run exampleConfig (spawned exampleConfig (Some 4242))
      [ChildClose (Some 0) None, Sigint]) = 1
   \<and> killErrors (run exampleConfig (spawned exampleConfig (Some 4242))
      [ChildClose (Some 0) None, Sigint]) = 1"
  by (simp add: run_def step_def spawned_def onSigint_def onClose_def cleanup_def
        emit_def exampleConfig_def Let_def)

lemma cleanup_twice:
  "logEnds (cleanup second (cleanup first s)) = logEnds s + 2"
  "pendingExits (cleanup second (cleanup first s)) = pendingExits s @ [first, second]"
  by (simp_all add: cleanup_def Let_def split: option.splits)

lemma step_exitCalls:
  assumes "(exited s = None \<longrightarrow> exitCalls s = 0) \<and> exitCalls s \<le> 1"
  shows "(exited (step cfg s ev) = None \<longrightarrow> exitCalls (step cfg s ev) = 0)
         \<and> exitCalls (step cfg s ev) \<le> 1"
  using assms
  by (cases ev)
     (auto simp: step_def onClose_def onSigint_def onSigterm_def onTimeout_def cleanup_def
        emit_def Let_def split: option.splits list.splits)

lemma run_exitCalls:
  "(exited s = None \<longrightarrow> exitCalls s = 0) \<and> exitCalls s \<le> 1 \<Longrightarrow>
     exitCalls (run cfg s evs) \<le> 1"
proof (induction evs arbitrary: s)
  case Nil
  then show ?case by (simp add: run_Nil)
next
  case (Cons e evs)
  from step_exitCalls [OF Cons.prems] Cons.IH show ?case
    by (simp add: run_Cons)
qed

lemma cleanup_exitCalls: "exitCalls (cleanup code s) = exitCalls s"
  by (simp add: cleanup_def Let_def split: option.splits)

text \<open>
  Claim C3, as amended. A second \<open>cleanup\<close> runs its steps again and arms another
  exit timer; but whatever events follow the first \<open>cleanup\<close>, \<open>process.exit\<close>
  runs at most once, with the code of that first invocation.
\<close>

theorem teardown_exits_once:
  assumes "live s" and "exitCalls s = 0"
  shows "logEnds (cleanup second (cleanup first s)) = logEnds s + 2
       \<and> pendingExits (cleanup second (cleanup first s)) = [first, second]
       \<and> exitCalls (run cfg (cleanup first s) evs) \<le> 1
       \<and> (exited (run cfg (cleanup first s) evs) = None
          \<or> exited (run cfg (cleanup first s) evs) = Some (exitStatus first))
       \<and> exited (run cfg (cleanup first s) (evs @ [GraceElapsed])) = Some (exitStatus first)"
proof -
  from assms have e: "exited (cleanup first s) = None"
    and p: "pendingExits (cleanup first s) = [first]"
    by (simp_all add: live_def cleanup_exited cleanup_pending)
  from assms have "exitCalls (run cfg (cleanup first s) evs) \<le> 1"
    by (intro run_exitCalls) (simp add: cleanup_exitCalls)
  moreover from assms have "pendingExits (cleanup second (cleanup first s)) = [first, second]"
    by (simp add: cleanup_twice live_def)
  ultimately show ?thesis
    using first_exit_only [OF e p] first_exit_wins [OF e p] cleanup_twice(1)
    by simp
qed

theorem teardown_exits_once_witness:
  "live (spawned exampleConfig (Some 4242)) \<and> exitCalls (spawned exampleConfig (Some 4242)) = 0
   \<and> exitCalls (run exampleConfig (cleanup (Some 0) (spawned exampleConfig (Some 4242)))
        [Sigint, GraceElapsed, GraceElapsed, Sigterm]) \<le> 1
   \<and> exited (run exampleConfig (cleanup (Some 0) (spawned exampleConfig (Some 4242)))
        ([Sigint, GraceElapsed, GraceElapsed, Sigterm] @ [GraceElapsed])) = Some 0"
proof -
  have h: "live (spawned exampleConfig (Some 4242))" "exitCalls (spawned exampleConfig (Some 4242)) = 0"
    by (simp_all add: spawned_def live_def)
  show ?thesis
    using h teardown_exits_once [OF h, where cfg = exampleConfig and first = "Some 0"
        and evs = "[Sigint, GraceElapsed, GraceElapsed, Sigterm]"]
    by (simp add: exitStatus_def)
qed

section \<open>Build-descriptor resolution\<close>

lemma find_first:
  "P w \<Longrightarrow> \<forall>f\<in>set pre. \<not> P f \<Longrightarrow> find P (pre @ w # post) = Some w"
  by (induction pre) simp_all

lemma main_checked:
  assumes "\<not> wantsHelp args" "projectPath args = Some dir" "scheme args = Some sch"
    "command args \<in> ALLOWED_COMMANDS" "timeout args = Finite t" "0 < t"
    "command args = ''archive'' \<longrightarrow> archivePathArg args \<noteq> None"
  shows "main e args = discover e args dir sch t"
  using assms by (auto simp: main_def)

lemma launch_trace:
  "traceOf (launch e args dir sch target t ap pre) =
     pre @ (if quiet args then [] else
        [Out (Starting (command args)
           (take 80 (joinSpace (buildCmdParts target sch (command args) (deviceName args) ap))))])
     @ [CreateWriteStream (logFile args),
        SpawnShell (joinSpace (buildCmdParts target sch (command args) (deviceName args) ap)) dir]"
  by (simp add: launch_def Let_def)

lemma launch_spawns: "spawnsChild (launch e args dir sch target t ap pre)"
  by (simp add: spawnsChild_def launch_trace)

lemma discover_no_descriptor:
  assumes "readdirSync e dir = Some entries" "buildTarget entries = None"
  shows "discover e args dir sch t = Exit 1 [ReadDir dir, ReadDir dir, Err (NoDescriptorFound dir)]"
  using assms by (simp add: discover_def)

text \<open>
  Claim C4, as amended. Once the argument checks have passed and the directory has
  been read, one descriptor is selected: the first entry ending in \<open>.xcworkspace\<close>
  if there is one (whatever else the directory holds), otherwise the first entry
  ending in \<open>.xcodeproj\<close>. Only a directory with neither is an error: the script
  exits with 1 and no child is spawned.
\<close>

theorem descriptor_resolution:
  assumes "\<not> wantsHelp args" and "projectPath args = Some dir" and "scheme args = Some sch"
    and "command args \<in> ALLOWED_COMMANDS" and "timeout args = Finite t" and "0 < t"
    and "command args = ''archive'' \<longrightarrow> archivePathArg args \<noteq> None"
    and "readdirSync e dir = Some entries"
  shows "(entries = pre @ w # post \<and> endsWith w ''.xcworkspace''
            \<and> (\<forall>f\<in>set pre. \<not> endsWith f ''.xcworkspace'')
          \<longrightarrow> buildTarget entries = Some (''-workspace '' @ quoted w)
              \<and> Err (NoDescriptorFound dir) \<notin> set (traceOf (main e args)))
       \<and> ((\<forall>f\<in>set entries. \<not> endsWith f ''.xcworkspace'')
            \<and> entries = pre @ w # post \<and> endsWith w ''.xcodeproj''
            \<and> (\<forall>f\<in>set pre. \<not> endsWith f ''.xcodeproj'')
          \<longrightarrow> buildTarget entries = Some (''-project '' @ quoted w)
              \<and> Err (NoDescriptorFound dir) \<notin> set (traceOf (main e args)))
       \<and> ((\<forall>f\<in>set entries. \<not> endsWith f ''.xcworkspace'' \<and> \<not> endsWith f ''.xcodeproj'')
          \<longrightarrow> main e args = Exit 1 [ReadDir dir, ReadDir dir, Err (NoDescriptorFound dir)]
              \<and> \<not> spawnsChild (main e args))"
proof -
  have m: "main e args = discover e args dir sch t"
    using assms(1-7) by (rule main_checked)
  have found: "Err (NoDescriptorFound dir) \<notin> set (traceOf (main e args))"
    if "buildTarget entries = Some target" for target
    using that assms(8)
    by (auto simp: m discover_def verifyDevice_def launch_trace banner_def Let_def
          split: option.splits if_splits)
  have a: "buildTarget entries = Some (''-workspace '' @ quoted w)"
    if "entries = pre @ w # post" "endsWith w ''.xcworkspace''"
       "\<forall>f\<in>set pre. \<not> endsWith f ''.xcworkspace''"
    using that by (simp add: buildTarget_def workspaceFile_def find_first)
  have b: "buildTarget entries = Some (''-project '' @ quoted w)"
    if "\<forall>f\<in>set entries. \<not> endsWith f ''.xcworkspace''"
       "entries = pre @ w # post" "endsWith w ''.xcodeproj''"
       "\<forall>f\<in>set pre. \<not> endsWith f ''.xcodeproj''"
  proof -
    from that(1) have "workspaceFile entries = None"
      by (simp add: workspaceFile_def find_None_iff)
    moreover from that(2-4) have "projectFile entries = Some w"
      by (simp add: projectFile_def find_first)
    ultimately show ?thesis by (simp add: buildTarget_def)
  qed
  have c: "main e args = Exit 1 [ReadDir dir, ReadDir dir, Err (NoDescriptorFound dir)]"
    if "\<forall>f\<in>set entries. \<not> endsWith f ''.xcworkspace'' \<and> \<not> endsWith f ''.xcodeproj''"
  proof -
    from that have "workspaceFile entries = None" "projectFile entries = None"
      by (simp_all add: workspaceFile_def projectFile_def find_None_iff)
    then have "buildTarget entries = None"
      by (simp add: buildTarget_def)
    with assms(8) show ?thesis by (simp add: m discover_no_descriptor)
  qed
  show ?thesis
    using a b c found by (auto simp: spawnsChild_def)
qed

lemma plain_args:
  "\<not> wantsHelp [''--project'', ''/p'', ''--scheme'', ''App'']"
  "projectPath [''--project'', ''/p'', ''--scheme'', ''App''] = Some ''/p''"
  "scheme [''--project'', ''/p'', ''--scheme'', ''App''] = Some ''App''"
  "command [''--project'', ''/p'', ''--scheme'', ''App''] = ''build''"
  "timeout [''--project'', ''/p'', ''--scheme'', ''App''] = Finite 300"
  "archivePathArg [''--project'', ''/p'', ''--scheme'', ''App''] = None"
  "deviceName [''--project'', ''/p'', ''--scheme'', ''App''] = ''iPhone 16 Pro''"
  by code_simp+

lemma endsWith_examples:
  "endsWith ''App.xcworkspace'' ''.xcworkspace''"
  "\<not> endsWith ''README.md'' ''.xcworkspace''"
  "\<not> endsWith ''README.md'' ''.xcodeproj''"
  "endsWith ''A.xcworkspace'' ''.xcworkspace''"
  by code_simp+

lemma readdir_envWith: "readdirSync (envWith entries devices) dir = entries"
  by (simp add: envWith_def)

theorem descriptor_resolution_witness:
  "buildTarget [''README.md'', ''App.xcworkspace'', ''App.xcodeproj'']
     = Some (''-workspace '' @ quoted ''App.xcworkspace'')
   \<and> main (envWith (Some [''README.md'']) None) [''--project'', ''/p'', ''--scheme'', ''App'']
     = Exit 1 [ReadDir ''/p'', ReadDir ''/p'', Err (NoDescriptorFound ''/p'')]"
  using
    descriptor_resolution [where args = "[''--project'', ''/p'', ''--scheme'', ''App'']"
      and dir = "''/p''" and sch = "''App''" and t = 300
      and e = "envWith (Some [''README.md'', ''App.xcworkspace'', ''App.xcodeproj'']) None"
      and entries = "[''README.md'', ''App.xcworkspace'', ''App.xcodeproj'']"
      and pre = "[''README.md'']" and w = "''App.xcworkspace''" and post = "[''App.xcodeproj'']"]
    descriptor_resolution [where args = "[''--project'', ''/p'', ''--scheme'', ''App'']"
      and dir = "''/p''" and sch = "''App''" and t = 300
      and e = "envWith (Some [''README.md'']) None"
      and entries = "[''README.md'']"]
  by (simp add: plain_args endsWith_examples readdir_envWith ALLOWED_COMMANDS_def)

text \<open>
  Claim C4 as stated fails: a directory with two workspace descriptors is not an
  error. The first one is selected and the child is spawned.
\<close>

theorem two_workspaces_counterexample:
  "buildTarget [''A.xcworkspace'', ''B.xcworkspace''] = Some (''-workspace '' @ quoted ''A.xcworkspace'')
   \<and> exitCodeOf (main (envWith (Some [''A.xcworkspace'', ''B.xcworkspace'']) (Some ''iPhone 16 Pro''))
        [''--project'', ''/p'', ''--scheme'', ''App'']) = None
   \<and> spawnsChild (main (envWith (Some [''A.xcworkspace'', ''B.xcworkspace'']) (Some ''iPhone 16 Pro''))
        [''--project'', ''/p'', ''--scheme'', ''App''])"
  by code_simp

text \<open>
  Claim C6. The script evaluated at \<open>--timeout 10abc\<close>: \<open>parseInt\<close> reads the
  leading digits, the timeout is 10, the check passes and the child is spawned.
\<close>

theorem timeout_trailing_text_accepted:
  "timeout [''--project'', ''/p'', ''--scheme'', ''App'', ''--timeout'', ''10abc''] = Finite 10
   \<and> exitCodeOf (main (envWith (Some [''App.xcodeproj'']) (Some ''iPhone 16 Pro''))
        [''--project'', ''/p'', ''--scheme'', ''App'', ''--timeout'', ''10abc'']) = None
   \<and> spawnsChild (main (envWith (Some [''App.xcodeproj'']) (Some ''iPhone 16 Pro''))
        [''--project'', ''/p'', ''--scheme'', ''App'', ''--timeout'', ''10abc''])"
  by code_simp

section \<open>Archive path and device validation\<close>

text \<open>
  Claim C7. For an invocation that does not ask for help, with operation
  \<open>archive\<close> and no archive path: the script exits with 1, the target directory is
  never read and no child is spawned; when the earlier checks pass, it is the
  archive-path check that ends the run.
\<close>

theorem archive_path_checked_before_discovery:
  assumes "\<not> wantsHelp args" and "command args = ''archive''" and "archivePathArg args = None"
  shows "exitCodeOf (main e args) = Some 1
       \<and> \<not> readsDirectory (main e args)
       \<and> \<not> spawnsChild (main e args)
       \<and> (projectPath args \<noteq> None \<and> scheme args \<noteq> None
            \<and> (\<exists>t. timeout args = Finite t \<and> 0 < t)
          \<longrightarrow> main e args = Exit 1 [Err ArchivePathRequired, Err Usage])"
  using assms
  by (auto simp: main_def readsDirectory_def spawnsChild_def ALLOWED_COMMANDS_def
        split: option.splits number.splits)

lemma archive_args:
  "\<not> wantsHelp [''--project'', ''/p'', ''--scheme'', ''App'', ''--command'', ''archive'']"
  "command [''--project'', ''/p'', ''--scheme'', ''App'', ''--command'', ''archive''] = ''archive''"
  "archivePathArg [''--project'', ''/p'', ''--scheme'', ''App'', ''--command'', ''archive''] = None"
  "projectPath [''--project'', ''/p'', ''--scheme'', ''App'', ''--command'', ''archive''] = Some ''/p''"
  "scheme [''--project'', ''/p'', ''--scheme'', ''App'', ''--command'', ''archive''] = Some ''App''"
  "timeout [''--project'', ''/p'', ''--scheme'', ''App'', ''--command'', ''archive''] = Finite 300"
  by code_simp+

theorem archive_path_checked_before_discovery_witness:
  "\<not> wantsHelp [''--project'', ''/p'', ''--scheme'', ''App'', ''--command'', ''archive'']
   \<and> command [''--project'', ''/p'', ''--scheme'', ''App'', ''--command'', ''archive''] = ''archive''
   \<and> archivePathArg [''--project'', ''/p'', ''--scheme'', ''App'', ''--command'', ''archive''] = None
   \<and> main (envWith (Some [''App.xcodeproj'']) (Some ''iPhone 16 Pro''))
         [''--project'', ''/p'', ''--scheme'', ''App'', ''--command'', ''archive'']
       = Exit 1 [Err ArchivePathRequired, Err Usage]"
  using archive_path_checked_before_discovery [OF archive_args(1-3),
      where e = "envWith (Some [''App.xcodeproj'']) (Some ''iPhone 16 Pro'')"]
  by (simp add: archive_args)

lemma exec_only_for_simulator:
  "ExecListDevices \<in> set (traceOf (main e args)) \<Longrightarrow>
     command args = ''build'' \<or> command args = ''test''"
  by (auto simp: main_def discover_def verifyDevice_def launch_trace banner_def Let_def
        usesSimulatorDestination_def split: option.splits number.splits if_splits)

text \<open>
  Claim C8. The device list is queried only when the operation is \<open>build\<close> or
  \<open>test\<close>. Once the earlier checks have passed: for the other operations the query
  is skipped; a device name that is not a substring of the listing ends the run with
  exit 1 after printing the whole listing; a failing query is a different message,
  also exit 1; in both cases no child is spawned. A device name found in the
  listing lets the run go on to the spawn.
\<close>

theorem device_validation:
  assumes "\<not> wantsHelp args" and "projectPath args = Some dir" and "scheme args = Some sch"
    and "command args \<in> ALLOWED_COMMANDS" and "timeout args = Finite t" and "0 < t"
    and "command args = ''archive'' \<longrightarrow> archivePathArg args \<noteq> None"
    and "readdirSync e dir = Some entries" and "buildTarget entries = Some target"
  shows "(ExecListDevices \<in> set (traceOf (main e' args'))
            \<longrightarrow> command args' = ''build'' \<or> command args' = ''test'')
       \<and> (command args \<noteq> ''build'' \<and> command args \<noteq> ''test''
            \<longrightarrow> ExecListDevices \<notin> set (traceOf (main e args)) \<and> spawnsChild (main e args))
       \<and> ((command args = ''build'' \<or> command args = ''test'') \<and> listDevices e = Some devices
            \<and> \<not> sublist (deviceName args) devices
            \<longrightarrow> exitCodeOf (main e args) = Some 1
              \<and> \<not> spawnsChild (main e args)
              \<and> Err (DeviceNotFound (deviceName args)) \<in> set (traceOf (main e args))
              \<and> Err (Raw devices) \<in> set (traceOf (main e args))
              \<and> Err FailedToListDevices \<notin> set (traceOf (main e args)))
       \<and> ((command args = ''build'' \<or> command args = ''test'') \<and> listDevices e = None
            \<longrightarrow> exitCodeOf (main e args) = Some 1
              \<and> \<not> spawnsChild (main e args)
              \<and> Err FailedToListDevices \<in> set (traceOf (main e args))
              \<and> Err (DeviceNotFound (deviceName args)) \<notin> set (traceOf (main e args)))
       \<and> ((command args = ''build'' \<or> command args = ''test'') \<and> listDevices e = Some devices
            \<and> sublist (deviceName args) devices
            \<longrightarrow> spawnsChild (main e args))"
proof -
  have m: "main e args = verifyDevice e args dir sch target t
             (if command args = ''archive''
              then map_option (pathResolve e dir) (archivePathArg args) else None)
             ([ReadDir dir, ReadDir dir] @ banner args dir sch t
                (if command args = ''archive''
                 then map_option (pathResolve e dir) (archivePathArg args) else None))"
    using main_checked [OF assms(1-7)] assms(8,9) by (simp add: discover_def Let_def)
  show ?thesis
    unfolding m
    using exec_only_for_simulator [of e' args']
    by (auto simp: verifyDevice_def usesSimulatorDestination_def launch_spawns launch_trace
          spawnsChild_def banner_def includesStr_sublist)
qed

lemma device_examples:
  "buildTarget [''App.xcodeproj''] = Some (''-project '' @ quoted ''App.xcodeproj'')"
  "\<not> includesStr ''-- iOS 18.0 -- iPhone 15 (Booted)'' ''iPhone 16 Pro''"
  by code_simp+

lemma listDevices_envWith: "listDevices (envWith entries devices) = devices"
  by (simp add: envWith_def)

theorem device_validation_witness:
  "exitCodeOf (main (envWith (Some [''App.xcodeproj'']) (Some ''-- iOS 18.0 -- iPhone 15 (Booted)''))
       [''--project'', ''/p'', ''--scheme'', ''App'']) = Some 1
   \<and> Err (Raw ''-- iOS 18.0 -- iPhone 15 (Booted)'')
       \<in> set (traceOf (main (envWith (Some [''App.xcodeproj''])
                  (Some ''-- iOS 18.0 -- iPhone 15 (Booted)''))
                [''--project'', ''/p'', ''--scheme'', ''App'']))
   \<and> exitCodeOf (main (envWith (Some [''App.xcodeproj'']) None)
       [''--project'', ''/p'', ''--scheme'', ''App'']) = Some 1
   \<and> Err FailedToListDevices
       \<in> set (traceOf (main (envWith (Some [''App.xcodeproj'']) None)
                [''--project'', ''/p'', ''--scheme'', ''App'']))"
  using
    device_validation [where args = "[''--project'', ''/p'', ''--scheme'', ''App'']"
      and dir = "''/p''" and sch = "''App''" and t = 300
      and e = "envWith (Some [''App.xcodeproj'']) (Some ''-- iOS 18.0 -- iPhone 15 (Booted)'')"
      and entries = "[''App.xcodeproj'']"
      and target = "''-project '' @ quoted ''App.xcodeproj''"
      and devices = "''-- iOS 18.0 -- iPhone 15 (Booted)''"]
    device_validation [where args = "[''--project'', ''/p'', ''--scheme'', ''App'']"
      and dir = "''/p''" and sch = "''App''" and t = 300
      and e = "envWith (Some [''App.xcodeproj'']) None"
      and entries = "[''App.xcodeproj'']"
      and target = "''-project '' @ quoted ''App.xcodeproj''"]
    device_examples(2)
  by (simp add: plain_args device_examples(1) readdir_envWith listDevices_envWith
        ALLOWED_COMMANDS_def includesStr_sublist)

section \<open>Error-line extraction\<close>

lemma errorMatch_None_iff: "errorMatch xs = None \<longleftrightarrow> \<not> sublist ''error:'' xs"
  by (induction xs) (simp_all add: sublist_Cons_right)

lemma marker_no_terminator: "c \<in> set ''error:'' \<Longrightarrow> \<not> isLineTerminator c"
  by (auto simp: isLineTerminator_def)

lemma no_match_before:
  assumes "\<not> sublist ''error:'' pre" and "pre \<noteq> []" and "isLineTerminator (last pre)"
  shows "\<not> prefix ''error:'' (pre @ xs)"
proof
  assume "prefix ''error:'' (pre @ xs)"
  then consider "prefix ''error:'' pre" | us where "''error:'' = pre @ us"
    by (auto simp: prefix_append)
  then show False
  proof cases
    case 1
    then have "sublist ''error:'' pre" by (rule prefix_imp_sublist)
    with assms(1) show False by simp
  next
    case 2
    with assms(2) have "last pre \<in> set ''error:''"
      by (metis last_in_set set_append UnI1)
    with assms(3) show False using marker_no_terminator by blast
  qed
qed

lemma errorMatch_after_lines:
  assumes "\<not> sublist ''error:'' pre" and "pre = [] \<or> isLineTerminator (last pre)"
  shows "errorMatch (pre @ ''error:'' @ xs) =
           Some (takeWhile (\<lambda>x. \<not> isLineTerminator x) (''error:'' @ xs))"
  using assms
proof (induction pre)
  case Nil
  show ?case by simp
next
  case (Cons c cs)
  from Cons.prems have np: "\<not> prefix ''error:'' ((c # cs) @ ''error:'' @ xs)"
    by (intro no_match_before) simp_all
  from Cons.prems have "\<not> sublist ''error:'' cs"
    by (simp add: sublist_Cons_right)
  moreover from Cons.prems have "cs = [] \<or> isLineTerminator (last cs)"
    by (cases cs) simp_all
  ultimately have "errorMatch (cs @ ''error:'' @ xs) =
      Some (takeWhile (\<lambda>x. \<not> isLineTerminator x) (''error:'' @ xs))"
    by (rule Cons.IH)
  moreover from np have "errorMatch ((c # cs) @ ''error:'' @ xs) = errorMatch (cs @ ''error:'' @ xs)"
    by (simp only: append_Cons errorMatch.simps if_False)
  ultimately show ?case by (simp only:)
qed

lemma line_taken:
  assumes "\<forall>c\<in>set m. \<not> isLineTerminator c" and "rest = [] \<or> isLineTerminator (hd rest)"
  shows "takeWhile (\<lambda>x. \<not> isLineTerminator x) (m @ rest) = m"
proof -
  from assms(2) have "takeWhile (\<lambda>x. \<not> isLineTerminator x) rest = []"
    by (cases rest) simp_all
  with assms(1) show ?thesis by (simp add: takeWhile_append2)
qed

lemma something_failed_match:
  assumes "\<not> sublist ''error:'' pre" and "pre = [] \<or> isLineTerminator (last pre)"
    and "rest = [] \<or> isLineTerminator (hd rest)"
  shows "errorMatch (pre @ ''error: something failed'' @ rest) = Some ''error: something failed''"
proof -
  have "\<forall>c\<in>set ''error: something failed''. \<not> isLineTerminator c"
    by (simp add: isLineTerminator_def)
  from line_taken [OF this assms(3)] errorMatch_after_lines [OF assms(1,2), of "'' something failed'' @ rest"]
  show ?thesis by simp
qed

lemma onClose_failure:
  assumes "\<not> timedOut s" and "code \<noteq> Some 0"
  shows "console (onClose cfg code lg s) =
           console s @ (if cfgQuiet cfg then [] else [Out ClearProgressLine])
           @ [Err (FailedReport (toUpperCase (cfgCommand cfg)) code)] @ diagnostics lg
           @ [Err (FullLog (cfgLogFile cfg))]"
    and "pendingExits (onClose cfg code lg s) = pendingExits s @ [code]"
  using assms
  by (simp_all add: onClose_def cleanup_def emit_def Let_def split: option.splits)

lemma errorMatch_first:
  assumes "\<forall>i<length pre. \<not> prefix ''error:'' (drop i (pre @ ''error:'' @ xs))"
  shows "errorMatch (pre @ ''error:'' @ xs) =
           Some (takeWhile (\<lambda>x. \<not> isLineTerminator x) (''error:'' @ xs))"
  using assms
proof (induction pre)
  case Nil
  show ?case by simp
next
  case (Cons c cs)
  from Cons.prems have "\<not> prefix ''error:'' (drop 0 ((c # cs) @ ''error:'' @ xs))"
    by (metis length_greater_0_conv list.distinct(1))
  then have np: "\<not> prefix ''error:'' ((c # cs) @ ''error:'' @ xs)"
    unfolding drop_0 .
  have "\<forall>i<length cs. \<not> prefix ''error:'' (drop i (cs @ ''error:'' @ xs))"
  proof (intro allI impI)
    fix i assume "i < length cs"
    then have "Suc i < length (c # cs)" by simp
    with Cons.prems have "\<not> prefix ''error:'' (drop (Suc i) ((c # cs) @ ''error:'' @ xs))"
      by blast
    then show "\<not> prefix ''error:'' (drop i (cs @ ''error:'' @ xs))"
      by simp
  qed
  then have "errorMatch (cs @ ''error:'' @ xs) =
      Some (takeWhile (\<lambda>x. \<not> isLineTerminator x) (''error:'' @ xs))"
    by (rule Cons.IH)
  moreover from np have "errorMatch ((c # cs) @ ''error:'' @ xs) = errorMatch (cs @ ''error:'' @ xs)"
    by (simp only: append_Cons errorMatch.simps if_False)
  ultimately show ?case by (simp only:)
qed

lemma marker_line_taken:
  assumes "\<forall>c\<in>set body. \<not> isLineTerminator c" and "rest = [] \<or> isLineTerminator (hd rest)"
  shows "takeWhile (\<lambda>x. \<not> isLineTerminator x) (''error:'' @ body @ rest) = ''error:'' @ body"
proof -
  from assms(1) have "\<forall>c\<in>set (''error:'' @ body). \<not> isLineTerminator c"
    by (auto simp: isLineTerminator_def)
  from line_taken [OF this assms(2)] show ?thesis by simp
qed

lemma first_marker_match:
  assumes "\<forall>i<length pre. \<not> prefix ''error:'' (drop i (pre @ ''error:'' @ body @ rest))"
    and "\<forall>c\<in>set body. \<not> isLineTerminator c" and "rest = [] \<or> isLineTerminator (hd rest)"
  shows "errorMatch (pre @ ''error:'' @ body @ rest) = Some (''error:'' @ body)"
  using errorMatch_first [OF assms(1)] marker_line_taken [OF assms(2,3)]
  by (simp only:)

text \<open>
  Claim C9. On a non-zero child exit (the run not timed out) the handler searches the
  log for the exact, case-sensitive marker \<open>error:\<close>. Without the marker nothing is
  extracted. Otherwise the diagnostic printed is the text from the first position
  where the marker starts, anywhere in a line, up to the end of that line, whatever
  follows; in particular a line \<open>error: something failed\<close> with no marker before it
  is printed exactly. When the log cannot be read, no diagnostic is printed and the
  handler still goes on to \<open>cleanup\<close> with the child's code.
\<close>

theorem error_line_extracted:
  assumes "\<not> timedOut s" and "code \<noteq> Some 0"
  shows "(\<not> sublist ''error:'' logContent \<longrightarrow>
            errorMatch logContent = None
          \<and> console (onClose cfg code (Some logContent) s) =
              console s @ (if cfgQuiet cfg then [] else [Out ClearProgressLine])
              @ [Err (FailedReport (toUpperCase (cfgCommand cfg)) code)]
              @ (if includesStr logContent ''Unable to find a device'' then [Err DeviceTip] else [])
              @ [Err (FullLog (cfgLogFile cfg))])
       \<and> ((\<forall>i<length pre. \<not> prefix ''error:'' (drop i (pre @ ''error:'' @ body @ rest)))
            \<and> (\<forall>c\<in>set body. \<not> isLineTerminator c)
            \<and> (rest = [] \<or> isLineTerminator (hd rest)) \<longrightarrow>
            errorMatch (pre @ ''error:'' @ body @ rest) = Some (''error:'' @ body)
          \<and> console (onClose cfg code (Some (pre @ ''error:'' @ body @ rest)) s) =
              console s @ (if cfgQuiet cfg then [] else [Out ClearProgressLine])
              @ [Err (FailedReport (toUpperCase (cfgCommand cfg)) code),
                 Err (ErrorLine (''error:'' @ body))]
              @ (if includesStr (pre @ ''error:'' @ body @ rest) ''Unable to find a device''
                 then [Err DeviceTip] else [])
              @ [Err (FullLog (cfgLogFile cfg))])
       \<and> (\<not> sublist ''error:'' before
            \<and> (before = [] \<or> isLineTerminator (last before))
            \<and> (after = [] \<or> isLineTerminator (hd after)) \<longrightarrow>
            errorMatch (before @ ''error: something failed'' @ after) = Some ''error: something failed''
          \<and> console (onClose cfg code (Some (before @ ''error: something failed'' @ after)) s) =
              console s @ (if cfgQuiet cfg then [] else [Out ClearProgressLine])
              @ [Err (FailedReport (toUpperCase (cfgCommand cfg)) code),
                 Err (ErrorLine ''error: something failed'')]
              @ (if includesStr (before @ ''error: something failed'' @ after) ''Unable to find a device''
                 then [Err DeviceTip] else [])
              @ [Err (FullLog (cfgLogFile cfg))])
       \<and> console (onClose cfg code None s) =
           console s @ (if cfgQuiet cfg then [] else [Out ClearProgressLine])
           @ [Err (FailedReport (toUpperCase (cfgCommand cfg)) code),
              Err (FullLog (cfgLogFile cfg))]
       \<and> pendingExits (onClose cfg code None s) = pendingExits s @ [code]
       \<and> errorMatch ''Error: something failed'' = None"
proof -
  note oc = onClose_failure [OF assms]
  have a: "errorMatch logContent = None
          \<and> console (onClose cfg code (Some logContent) s) =
              console s @ (if cfgQuiet cfg then [] else [Out ClearProgressLine])
              @ [Err (FailedReport (toUpperCase (cfgCommand cfg)) code)]
              @ (if includesStr logContent ''Unable to find a device'' then [Err DeviceTip] else [])
              @ [Err (FullLog (cfgLogFile cfg))]"
    if "\<not> sublist ''error:'' logContent"
  proof -
    from that have "errorMatch logContent = None" using errorMatch_None_iff by blast
    then show ?thesis using oc(1) [of cfg "Some logContent"] by (simp add: diagnostics_def)
  qed
  have b: "errorMatch (pre @ ''error:'' @ body @ rest) = Some (''error:'' @ body)
          \<and> console (onClose cfg code (Some (pre @ ''error:'' @ body @ rest)) s) =
              console s @ (if cfgQuiet cfg then [] else [Out ClearProgressLine])
              @ [Err (FailedReport (toUpperCase (cfgCommand cfg)) code),
                 Err (ErrorLine (''error:'' @ body))]
              @ (if includesStr (pre @ ''error:'' @ body @ rest) ''Unable to find a device''
                 then [Err DeviceTip] else [])
              @ [Err (FullLog (cfgLogFile cfg))]"
    if "\<forall>i<length pre. \<not> prefix ''error:'' (drop i (pre @ ''error:'' @ body @ rest))"
       "\<forall>c\<in>set body. \<not> isLineTerminator c" "rest = [] \<or> isLineTerminator (hd rest)"
  proof -
    note m = first_marker_match [OF that]
    have "diagnostics (Some (pre @ ''error:'' @ body @ rest)) =
            [Err (ErrorLine (''error:'' @ body))]
            @ (if includesStr (pre @ ''error:'' @ body @ rest) ''Unable to find a device''
               then [Err DeviceTip] else [])"
      unfolding diagnostics_def option.case m by (rule refl)
    with m oc(1) [of cfg "Some (pre @ ''error:'' @ body @ rest)"] show ?thesis
      by (simp only: append_Cons append_Nil append_assoc simp_thms)
  qed
  have c: "errorMatch (before @ ''error: something failed'' @ after) = Some ''error: something failed''
          \<and> console (onClose cfg code (Some (before @ ''error: something failed'' @ after)) s) =
              console s @ (if cfgQuiet cfg then [] else [Out ClearProgressLine])
              @ [Err (FailedReport (toUpperCase (cfgCommand cfg)) code),
                 Err (ErrorLine ''error: something failed'')]
              @ (if includesStr (before @ ''error: something failed'' @ after) ''Unable to find a device''
                 then [Err DeviceTip] else [])
              @ [Err (FullLog (cfgLogFile cfg))]"
    if "\<not> sublist ''error:'' before" "before = [] \<or> isLineTerminator (last before)"
       "after = [] \<or> isLineTerminator (hd after)"
    using something_failed_match [OF that]
      oc(1) [of cfg "Some (before @ ''error: something failed'' @ after)"]
    by (simp add: diagnostics_def)
  have d: "console (onClose cfg code None s) =
           console s @ (if cfgQuiet cfg then [] else [Out ClearProgressLine])
           @ [Err (FailedReport (toUpperCase (cfgCommand cfg)) code),
              Err (FullLog (cfgLogFile cfg))]"
    using oc(1) [of cfg None] by (simp add: diagnostics_def)
  have e: "errorMatch ''Error: something failed'' = None"
    by (simp add: errorMatch_None_iff sublist_Cons_right)
  from a b c d e oc(2) [of cfg None] show ?thesis by blast
qed

lemma midline_example:
  "\<forall>i<length ''/src/App.swift:3:1: ''.
      \<not> prefix ''error:'' (drop i (''/src/App.swift:3:1: '' @ ''error:'' @ '' bad thing''
            @ (CHR 0x0A # ''error: something failed'')))"
  by code_simp

theorem error_line_extracted_witness:
  "errorMatch (''/src/App.swift:3:1: error: bad thing'' @ [CHR 0x0A] @ ''error: something failed'')
     = Some ''error: bad thing''
   \<and> errorMatch (''Compiling App.swift'' @ [CHR 0x0A] @ ''error: something failed''
       @ [CHR 0x0A] @ ''error: another one'') = Some ''error: something failed''
   \<and> pendingExits (onClose exampleConfig (Some 65) None (spawned exampleConfig (Some 4242)))
       = [Some 65]"
proof -
  have h: "\<not> timedOut (spawned exampleConfig (Some 4242))" "Some (65::int) \<noteq> Some 0"
    by (simp_all add: spawned_def)
  have g: "\<not> sublist ''error:'' (''Compiling App.swift'' @ [CHR 0x0A])"
    "''Compiling App.swift'' @ [CHR 0x0A] = [] \<or> isLineTerminator (last (''Compiling App.swift'' @ [CHR 0x0A]))"
    "[CHR 0x0A] @ ''error: another one'' = [] \<or> isLineTerminator (hd ([CHR 0x0A] @ ''error: another one''))"
    "\<forall>c\<in>set '' bad thing''. \<not> isLineTerminator c"
    "CHR 0x0A # ''error: something failed'' = [] \<or> isLineTerminator (hd (CHR 0x0A # ''error: something failed''))"
    by (simp_all add: isLineTerminator_def sublist_Cons_right)
  show ?thesis
    using error_line_extracted [OF h, where cfg = exampleConfig
        and pre = "''/src/App.swift:3:1: ''" and body = "'' bad thing''"
        and rest = "CHR 0x0A # ''error: something failed''"
        and before = "''Compiling App.swift'' @ [CHR 0x0A]"
        and after = "[CHR 0x0A] @ ''error: another one''"]
      midline_example g
    by (simp add: spawned_def)
qed

section \<open>Letter case of the operation\<close>










end
